theory Spec2Isabelle
  imports Complex_Main "HOL-Library.Word"
begin

unbundle bit_operations_syntax

section \<open>Readout and buffer drivers of \<^verbatim>\<open>qick_lib/qick/drivers/readout.py\<close>\<close>

text \<open>
  The drivers are Python classes whose methods write device registers and raise
  \<^verbatim>\<open>RuntimeError\<close>. A method is embedded as a function from the object's state to a pair:
  the outcome (\<open>Inl\<close> an error, \<open>Inr\<close> the returned value) and the state the object is left
  in. The state is returned in the error case too, because a Python exception does not
  undo the assignments made before it was raised.

  Python integers are \<open>int\<close>; Python floats are modelled by exact reals.
\<close>

subsection \<open>Errors\<close>

text \<open>
  Every \<^verbatim>\<open>raise\<close> of the file is a \<^verbatim>\<open>RuntimeError\<close> told apart by its message only; the
  constructors below name the messages.
  \<^item> \<open>RangeError\<close>: "length=%d longer than %d", "requested length=%d longer or equal to
    decimated buffer size=%d", "Invalid %d output channel. It must be within [0, %d]";
  \<^item> \<open>CollisionError\<close>: "frequency collision: tried to set PFB output ...";
  \<^item> \<open>TransferIntegrityError\<close>: "Requested %d samples but only got %d from DMA";
  \<^item> \<open>CapacityError\<close>: "the requested number of DDR4 transfers (nt) exceeds the memory
    size; ...";
  \<^item> \<open>AttributeError\<close>: the lookup of the attribute \<^verbatim>\<open>self.pfb_ch\<close>, which no class defines, while
    the "Invalid PFB channel" message is being formatted;
  \<^item> \<open>ZeroDivisionError\<close>: a division or modulus by zero.
\<close>

datatype error =
    RangeError
  | CollisionError
  | TransferIntegrityError
  | CapacityError
  | AttributeError
  | ZeroDivisionError

type_synonym ('a, 's) outcome = "(error + 'a) \<times> 's"

subsection \<open>Python slices and numpy views\<close>

text \<open>
  \<^verbatim>\<open>xs[a:b]\<close> on a list or a one-dimensional array: a negative bound counts from the end,
  and both bounds are clipped to the sequence.
\<close>

definition slice_bound :: "nat \<Rightarrow> int \<Rightarrow> nat" where
  "slice_bound n i = (if i < 0 then nat (max (i + int n) 0) else min (nat i) n)"

definition py_slice :: "'a list \<Rightarrow> int \<Rightarrow> int \<Rightarrow> 'a list" where
  "py_slice xs a b =
     (let lo = slice_bound (length xs) a; hi = slice_bound (length xs) b
      in take (hi - lo) (drop lo xs))"

text \<open>
  \<^verbatim>\<open>np.frombuffer(.., dtype=np.int32).reshape((-1,2))\<close> on 64-bit words and
  \<^verbatim>\<open>.view(dtype=np.int16).reshape((-1,2))\<close> on 32-bit words (little endian): each word is one
  row, the low half the I value and the high half the Q value, both signed.
\<close>

definition iq32 :: "64 word \<Rightarrow> int \<times> int" where
  "iq32 w = (sint (ucast w :: 32 word), sint (ucast (drop_bit 32 w) :: 32 word))"

definition iq16 :: "32 word \<Rightarrow> int \<times> int" where
  "iq16 w = (sint (ucast w :: 16 word), sint (ucast (drop_bit 16 w) :: 16 word))"

text \<open>
  The DMA engine (\<^verbatim>\<open>pynq\<close>, outside the file) fills the preallocated buffer from its start
  and never resizes it.
\<close>

definition dma_write :: "'a list \<Rightarrow> 'a list \<Rightarrow> 'a list" where
  "dma_write delivered buff = take (length buff) delivered @ drop (length delivered) buff"

subsection \<open>\<^verbatim>\<open>AxisAvgBuffer\<close>\<close>

text \<open>
  The twelve registers of \<^verbatim>\<open>REGISTERS\<close>, the two capacities of \<^verbatim>\<open>cfg\<close>, the two
  preallocated DMA buffers, the switch port of the buffer, and the slave selected on each
  of the two switches (\<^verbatim>\<open>switch_avg.sel(slv=..)\<close>, \<^verbatim>\<open>switch_buf.sel(slv=..)\<close>; the switch
  driver is outside the file and keeps the selection it is given).
\<close>

record avg_buffer =
  avg_start_reg :: int
  avg_addr_reg :: int
  avg_len_reg :: int
  avg_dr_start_reg :: int
  avg_dr_addr_reg :: int
  avg_dr_len_reg :: int
  buf_start_reg :: int
  buf_addr_reg :: int
  buf_len_reg :: int
  buf_dr_start_reg :: int
  buf_dr_addr_reg :: int
  buf_dr_len_reg :: int
  avg_maxlen :: int
  buf_maxlen :: int
  avg_buff :: "64 word list"
  buf_buff :: "32 word list"
  switch_ch :: int
  switch_avg_sel :: int
  switch_buf_sel :: int

text \<open>
  \<^verbatim>\<open>__init__\<close>: the four start registers are cleared, the capacities are \<open>2 ^ N_AVG\<close> and
  \<open>2 ^ N_BUF\<close>, and a buffer of each capacity is allocated. The registers that
  \<^verbatim>\<open>__init__\<close> does not write, and the switch selections, are taken as 0.
\<close>

definition avg_buffer_init :: "nat \<Rightarrow> nat \<Rightarrow> int \<Rightarrow> avg_buffer" where
  "avg_buffer_init N_AVG N_BUF ch =
     \<lparr> avg_start_reg = 0, avg_addr_reg = 0, avg_len_reg = 0,
       avg_dr_start_reg = 0, avg_dr_addr_reg = 0, avg_dr_len_reg = 0,
       buf_start_reg = 0, buf_addr_reg = 0, buf_len_reg = 0,
       buf_dr_start_reg = 0, buf_dr_addr_reg = 0, buf_dr_len_reg = 0,
       avg_maxlen = 2 ^ N_AVG, buf_maxlen = 2 ^ N_BUF,
       avg_buff = replicate (2 ^ N_AVG) 0, buf_buff = replicate (2 ^ N_BUF) 0,
       switch_ch = ch, switch_avg_sel = 0, switch_buf_sel = 0 \<rparr>"

definition enable_avg :: "avg_buffer \<Rightarrow> avg_buffer" where
  "enable_avg s = s\<lparr>avg_start_reg := 1\<rparr>"

definition disable_avg :: "avg_buffer \<Rightarrow> avg_buffer" where
  "disable_avg s = s\<lparr>avg_start_reg := 0\<rparr>"

definition enable_buf :: "avg_buffer \<Rightarrow> avg_buffer" where
  "enable_buf s = s\<lparr>buf_start_reg := 1\<rparr>"

definition disable_buf :: "avg_buffer \<Rightarrow> avg_buffer" where
  "disable_buf s = s\<lparr>buf_start_reg := 0\<rparr>"

text \<open>\<^verbatim>\<open>config_avg\<close>: disable, then write the window. There is no check of the length.\<close>

definition config_avg :: "avg_buffer \<Rightarrow> int \<Rightarrow> int \<Rightarrow> (unit, avg_buffer) outcome" where
  "config_avg s address len =
     (let s1 = disable_avg s
      in (Inr (), s1\<lparr>avg_addr_reg := address, avg_len_reg := len\<rparr>))"

text \<open>\<^verbatim>\<open>config_buf\<close>: disable, check the length against the capacity, then write the window.\<close>

definition config_buf :: "avg_buffer \<Rightarrow> int \<Rightarrow> int \<Rightarrow> (unit, avg_buffer) outcome" where
  "config_buf s address len =
     (let s1 = disable_buf s
      in if len \<ge> buf_maxlen s1 then (Inl RangeError, s1)
         else (Inr (), s1\<lparr>buf_addr_reg := address, buf_len_reg := len\<rparr>))"

text \<open>
  The DMA engine of a transfer is a parameter: asked for \<open>nbytes\<close> bytes, it delivers
  some words into the buffer and reports the byte count \<^verbatim>\<open>recvchannel.transferred\<close>.
\<close>

type_synonym 'w dma = "int \<Rightarrow> 'w list \<times> int"

definition transfer_avg ::
  "64 word dma \<Rightarrow> avg_buffer \<Rightarrow> int \<Rightarrow> int \<Rightarrow> ((int \<times> int) list, avg_buffer) outcome" where
  "transfer_avg dma s address len =
     (if len \<ge> avg_maxlen s then (Inl RangeError, s)
      else
        let transferlen = len + (len mod 2);
            s1 = s\<lparr>switch_avg_sel := switch_ch s\<rparr>;
            s2 = s1\<lparr>avg_dr_addr_reg := address, avg_dr_len_reg := transferlen\<rparr>;
            s3 = s2\<lparr>avg_dr_start_reg := 1\<rparr>;
            (delivered, transferred) = dma (transferlen * 8);
            s4 = s3\<lparr>avg_buff := dma_write delivered (avg_buff s3)\<rparr>;
            s5 = s4\<lparr>avg_dr_start_reg := 0\<rparr>
        in if transferred \<noteq> transferlen * 8 then (Inl TransferIntegrityError, s5)
           else (Inr (map iq32 (py_slice (avg_buff s5) 0 len)), s5))"

text \<open>
  \<^verbatim>\<open>transfer_buf\<close> checks the byte count before it clears the send flag, so the flag
  stays set when the check fails.
\<close>

definition transfer_buf ::
  "32 word dma \<Rightarrow> avg_buffer \<Rightarrow> int \<Rightarrow> int \<Rightarrow> ((int \<times> int) list, avg_buffer) outcome" where
  "transfer_buf dma s address len =
     (if len \<ge> buf_maxlen s then (Inl RangeError, s)
      else
        let transferlen = len + (len mod 2);
            s1 = s\<lparr>switch_buf_sel := switch_ch s\<rparr>;
            s2 = s1\<lparr>buf_dr_addr_reg := address, buf_dr_len_reg := transferlen\<rparr>;
            s3 = s2\<lparr>buf_dr_start_reg := 1\<rparr>;
            (delivered, transferred) = dma (transferlen * 4);
            s4 = s3\<lparr>buf_buff := dma_write delivered (buf_buff s3)\<rparr>
        in if transferred \<noteq> transferlen * 4 then (Inl TransferIntegrityError, s4)
           else
             let s5 = s4\<lparr>buf_dr_start_reg := 0\<rparr>
             in (Inr (map iq16 (py_slice (buf_buff s5) 0 len)), s5))"

subsection \<open>Frequency selection of the polyphase filter-bank readouts\<close>

text \<open>
  \<^verbatim>\<open>int(x)\<close> on a float truncates towards zero; \<^verbatim>\<open>np.round\<close> rounds to the nearest
  integer and a tie to the even neighbour.
\<close>

definition py_int :: "real \<Rightarrow> int" where
  "py_int x = (if x < 0 then \<lceil>x\<rceil> else \<lfloor>x\<rfloor>)"

definition np_round :: "real \<Rightarrow> real" where
  "np_round x =
     (let f = \<lfloor>x\<rfloor>; d = x - of_int f
      in if d < 1 / 2 then of_int f
         else if d > 1 / 2 then of_int (f + 1)
         else if even f then of_int f else of_int (f + 1))"

text \<open>
  What \<^verbatim>\<open>set_freq\<close> asks of \<^verbatim>\<open>self.soc\<close>, whose class lives outside the file: the rounding of
  a frequency to one the generator \<open>gen_ch\<close> and this readout can both produce, the mixer
  of a generator, and the conversion of a frequency to a tuning word.
\<close>

record soc =
  roundfreq :: "real \<Rightarrow> int \<Rightarrow> real"
  HAS_MIXER :: "int \<Rightarrow> bool"
  get_mixer_freq :: "int \<Rightarrow> real"
  freq2int :: "real \<Rightarrow> int"

text \<open>The first lines of every \<^verbatim>\<open>set_freq\<close>: the frequency expected at the readout.\<close>

definition set_freq_ro_freq :: "soc \<Rightarrow> real \<Rightarrow> int option \<Rightarrow> real" where
  "set_freq_ro_freq sc f gen_ch =
     (let ro_freq = (case gen_ch of None \<Rightarrow> f | Some g \<Rightarrow> roundfreq sc f g)
      in case gen_ch of
           None \<Rightarrow> ro_freq
         | Some g \<Rightarrow> if HAS_MIXER sc g then ro_freq + get_mixer_freq sc g else ro_freq)"

text \<open>
  The locals of \<^verbatim>\<open>set_freq\<close>, in the order of the source:
  \<^verbatim>\<open>nqz = int(ro_freq // (self['fs']/2)) + 1\<close>,
  \<^verbatim>\<open>if nqz % 2 == 0: ro_freq *= -1\<close>,
  \<^verbatim>\<open>f_steps = int(np.round(ro_freq/(self['f_dds']/2)))\<close>,
  \<^verbatim>\<open>f_dds = ro_freq - f_steps*(self['f_dds']/2)\<close>,
  \<^verbatim>\<open>in_ch = (self.CH_OFFSET + f_steps) % 8\<close> (\<^verbatim>\<open>% self.N\<close> in V3 and V4).
\<close>

definition set_freq_nqz :: "real \<Rightarrow> real \<Rightarrow> int" where
  "set_freq_nqz fs_adc ro_freq = py_int (of_int \<lfloor>ro_freq / (fs_adc / 2)\<rfloor>) + 1"

definition set_freq_fold :: "real \<Rightarrow> real \<Rightarrow> real" where
  "set_freq_fold fs_adc ro_freq =
     (if set_freq_nqz fs_adc ro_freq mod 2 = 0 then ro_freq * (- 1) else ro_freq)"

definition set_freq_f_steps :: "real \<Rightarrow> real \<Rightarrow> int" where
  "set_freq_f_steps fdds ro_freq = py_int (np_round (ro_freq / (fdds / 2)))"

definition set_freq_f_dds :: "real \<Rightarrow> real \<Rightarrow> real" where
  "set_freq_f_dds fdds ro_freq = ro_freq - of_int (set_freq_f_steps fdds ro_freq) * (fdds / 2)"

definition set_freq_in_ch :: "int \<Rightarrow> int \<Rightarrow> int \<Rightarrow> int" where
  "set_freq_in_ch ch_offset nch f_steps = (ch_offset + f_steps) mod nch"

subsection \<open>\<^verbatim>\<open>AxisPFBReadoutV2\<close>\<close>

text \<open>
  A register is written by \<^verbatim>\<open>setattr(self, "freq%d_reg"%(in_ch), f_int)\<close>: its name is a
  family and an index.
\<close>

datatype reg = FREQ int | CHSEL int | ID int | PHASE int

text \<open>
  The entries \<^verbatim>\<open>fs\<close> and \<^verbatim>\<open>f_dds\<close> of \<^verbatim>\<open>cfg\<close>, the dictionaries \<^verbatim>\<open>ch_freqs\<close> (tuning word
  committed to a PFB channel) and \<^verbatim>\<open>out_chs\<close> (output last bound to a PFB channel), and the
  registers written so far.
\<close>

record pfb_readout =
  fs :: real
  f_dds :: real
  ch_freqs :: "int \<rightharpoonup> int"
  out_chs :: "int \<rightharpoonup> int"
  regs :: "reg \<rightharpoonup> int"

definition CH_OFFSET_V2 :: int where
  "CH_OFFSET_V2 = 4"

definition pfb_readout_v2_init :: "real \<Rightarrow> real \<Rightarrow> pfb_readout" where
  "pfb_readout_v2_init fs_adc fdds =
     \<lparr> fs = fs_adc, f_dds = fdds, ch_freqs = Map.empty, out_chs = Map.empty,
       regs = Map.empty \<rparr>"

definition initialize :: "'a pfb_readout_scheme \<Rightarrow> 'a pfb_readout_scheme" where
  "initialize s = s\<lparr>ch_freqs := Map.empty, out_chs := Map.empty\<rparr>"

text \<open>
  \<^verbatim>\<open>set_freq_int\<close>: the collision branch reads \<^verbatim>\<open>self.out_chs[in_ch]\<close> for its message
  (a \<^verbatim>\<open>KeyError\<close> would need \<open>ch_freqs\<close> to hold a key that \<open>out_chs\<close> lacks; the two are
  always written together) and raises before any assignment.
\<close>

definition set_freq_int_v2 ::
  "pfb_readout \<Rightarrow> int \<Rightarrow> int \<Rightarrow> int \<Rightarrow> (unit, pfb_readout) outcome" where
  "set_freq_int_v2 s f_int in_ch out_ch =
     (if ch_freqs s in_ch \<noteq> None \<and> Some f_int \<noteq> ch_freqs s in_ch
      then (Inl CollisionError, s)
      else
        let s1 = s\<lparr>ch_freqs := (ch_freqs s)(in_ch \<mapsto> f_int)\<rparr>;
            s2 = s1\<lparr>out_chs := (out_chs s1)(in_ch \<mapsto> out_ch)\<rparr>;
            s3 = s2\<lparr>regs := (regs s2)(CHSEL out_ch \<mapsto> in_ch)\<rparr>;
            s4 = s3\<lparr>regs := (regs s3)(FREQ in_ch \<mapsto> f_int)\<rparr>
        in (Inr (), s4))"

definition set_freq_v2 ::
  "soc \<Rightarrow> pfb_readout \<Rightarrow> real \<Rightarrow> int \<Rightarrow> int option \<Rightarrow> (unit, pfb_readout) outcome" where
  "set_freq_v2 sc s f out_ch gen_ch =
     (let ro_freq = set_freq_ro_freq sc f gen_ch
      in if fs s / 2 = 0 then (Inl ZeroDivisionError, s)
         else
           let ro_freq = set_freq_fold (fs s) ro_freq
           in if f_dds s / 2 = 0 then (Inl ZeroDivisionError, s)
              else
                let f_steps = set_freq_f_steps (f_dds s) ro_freq;
                    fdds = set_freq_f_dds (f_dds s) ro_freq;
                    in_ch = set_freq_in_ch CH_OFFSET_V2 8 f_steps;
                    freq_int = freq2int sc fdds
                in set_freq_int_v2 s freq_int in_ch out_ch)"

subsection \<open>\<^verbatim>\<open>AxisPFBReadoutV3\<close> and \<^verbatim>\<open>AxisPFBReadoutV4\<close>\<close>

text \<open>
  The two classes have the same methods, line for line; they differ in the number of
  outputs \<^verbatim>\<open>NOUT\<close> (4 and 8) and in the register table. The generic \<^verbatim>\<open>N\<close> is read from the
  block's description.
\<close>

record pfb_readout_wide = pfb_readout +
  N :: int
  NOUT :: int

definition L_PFB :: int where
  "L_PFB = 8"

definition CH_OFFSET :: "pfb_readout_wide \<Rightarrow> int" where
  "CH_OFFSET s = N s div 2"

definition pfb_readout_v3_init :: "int \<Rightarrow> real \<Rightarrow> real \<Rightarrow> pfb_readout_wide" where
  "pfb_readout_v3_init n fs_adc fdds =
     \<lparr> fs = fs_adc, f_dds = fdds, ch_freqs = Map.empty, out_chs = Map.empty,
       regs = Map.empty, N = n, NOUT = 4 \<rparr>"

definition pfb_readout_v4_init :: "int \<Rightarrow> real \<Rightarrow> real \<Rightarrow> pfb_readout_wide" where
  "pfb_readout_v4_init n fs_adc fdds =
     \<lparr> fs = fs_adc, f_dds = fdds, ch_freqs = Map.empty, out_chs = Map.empty,
       regs = Map.empty, N = n, NOUT = 8 \<rparr>"

text \<open>
  \<^verbatim>\<open>set_freq_int\<close> of V3 and V4. The message of the outer \<^verbatim>\<open>else\<close> reads \<^verbatim>\<open>self.pfb_ch\<close>,
  an attribute that does not exist, so that branch ends in an \<^verbatim>\<open>AttributeError\<close>.
\<close>

definition set_freq_int_wide ::
  "pfb_readout_wide \<Rightarrow> int \<Rightarrow> int \<Rightarrow> int \<Rightarrow> (unit, pfb_readout_wide) outcome" where
  "set_freq_int_wide s f_int pfb_ch out_ch =
     (if 0 \<le> pfb_ch \<and> pfb_ch < N s then
        let packet = py_int (of_int pfb_ch / of_int L_PFB);
            index = pfb_ch mod L_PFB;
            id_val = push_bit 8 index + packet
        in if 0 \<le> out_ch \<and> out_ch < NOUT s then
             let s1 = s\<lparr>regs := (regs s)(ID out_ch \<mapsto> id_val)\<rparr>;
                 s2 = s1\<lparr>regs := (regs s1)(FREQ out_ch \<mapsto> f_int)\<rparr>;
                 s3 = s2\<lparr>regs := (regs s2)(PHASE out_ch \<mapsto> 0)\<rparr>
             in (Inr (), s3)
           else (Inl RangeError, s)
      else (Inl AttributeError, s))"

definition set_freq_wide ::
  "soc \<Rightarrow> pfb_readout_wide \<Rightarrow> real \<Rightarrow> int \<Rightarrow> int option \<Rightarrow> (unit, pfb_readout_wide) outcome" where
  "set_freq_wide sc s f out_ch gen_ch =
     (let ro_freq = set_freq_ro_freq sc f gen_ch
      in if fs s / 2 = 0 then (Inl ZeroDivisionError, s)
         else
           let ro_freq = set_freq_fold (fs s) ro_freq
           in if f_dds s / 2 = 0 then (Inl ZeroDivisionError, s)
              else
                let f_steps = set_freq_f_steps (f_dds s) ro_freq;
                    fdds = set_freq_f_dds (f_dds s) ro_freq
                in if N s = 0 then (Inl ZeroDivisionError, s)
                   else
                     let pfb_ch = set_freq_in_ch (CH_OFFSET s) (N s) f_steps;
                         freq_int = freq2int sc fdds
                     in set_freq_int_wide s freq_int pfb_ch out_ch)"

subsection \<open>\<^verbatim>\<open>AxisBufferDdrV1\<close>\<close>

datatype ddr_reg = RSTART_REG | RADDR_REG | RLENGTH_REG | WSTART_REG | WADDR_REG | WNBURST_REG

text \<open>
  The six registers with the order of the writes made to them, the generics
  \<^verbatim>\<open>DATA_WIDTH\<close> and \<^verbatim>\<open>BURST_SIZE\<close> (the description's parameter plus one), and the DDR4
  memory as the array of 32-bit words \<^verbatim>\<open>ddr4_array\<close>.
\<close>

record buffer_ddr =
  rstart_reg :: int
  raddr_reg :: int
  rlength_reg :: int
  wstart_reg :: int
  waddr_reg :: int
  wnburst_reg :: int
  writes :: "(ddr_reg \<times> int) list"
  DATA_WIDTH :: int
  BURST_SIZE :: int
  ddr4_array :: "32 word list"

definition buffer_ddr_init :: "int \<Rightarrow> int \<Rightarrow> 32 word list \<Rightarrow> buffer_ddr" where
  "buffer_ddr_init data_width burst_size_param mem =
     \<lparr> rstart_reg = 0, raddr_reg = 0, rlength_reg = 10,
       wstart_reg = 0, waddr_reg = 0, wnburst_reg = 10,
       writes = [(RSTART_REG, 0), (RADDR_REG, 0), (RLENGTH_REG, 10),
                 (WSTART_REG, 0), (WADDR_REG, 0), (WNBURST_REG, 10)],
       DATA_WIDTH = data_width, BURST_SIZE = burst_size_param + 1,
       ddr4_array = mem \<rparr>"

text \<open>The entries \<^verbatim>\<open>burst_len\<close>, \<^verbatim>\<open>junk_len\<close> and \<^verbatim>\<open>maxlen\<close> of \<^verbatim>\<open>cfg\<close>.\<close>

definition burst_len :: "buffer_ddr \<Rightarrow> int" where
  "burst_len s = DATA_WIDTH s * BURST_SIZE s div 32"

definition junk_len :: "buffer_ddr \<Rightarrow> int" where
  "junk_len s = 50 * DATA_WIDTH s div 32 + 1"

definition maxlen :: "buffer_ddr \<Rightarrow> int" where
  "maxlen s = int (length (ddr4_array s))"

definition wstop :: "buffer_ddr \<Rightarrow> buffer_ddr" where
  "wstop s = s\<lparr>wstart_reg := 0, writes := writes s @ [(WSTART_REG, 0)]\<rparr>"

definition wstart :: "buffer_ddr \<Rightarrow> buffer_ddr" where
  "wstart s = s\<lparr>wstart_reg := 1, writes := writes s @ [(WSTART_REG, 1)]\<rparr>"

definition wlen :: "buffer_ddr \<Rightarrow> int \<Rightarrow> buffer_ddr" where
  "wlen s len = s\<lparr>wnburst_reg := len, writes := writes s @ [(WNBURST_REG, len)]\<rparr>"

text \<open>
  \<^verbatim>\<open>get_mem\<close>: the window, the copy of the padded range and the trimmed view of the
  copy. The window is returned by a function of its own, so that it can be spoken of.
\<close>

definition get_mem_window :: "buffer_ddr \<Rightarrow> int \<Rightarrow> int option \<Rightarrow> int \<times> int" where
  "get_mem_window s nt start =
     (case start of
        None \<Rightarrow> (junk_len s, nt * burst_len s)
      | Some st \<Rightarrow> (st, st + nt * burst_len s))"

definition get_mem :: "buffer_ddr \<Rightarrow> int \<Rightarrow> int option \<Rightarrow> (int \<times> int) list" where
  "get_mem s nt start =
     (let (start, fin) = get_mem_window s nt start;
          len = fin - start;
          buf_copy = py_slice (ddr4_array s) (start - (start mod 2)) (fin + (fin mod 2))
      in map iq16 (py_slice buf_copy (start mod 2) (len + start mod 2)))"

text \<open>\<^verbatim>\<open>arm\<close>: the quotient \<^verbatim>\<open>maxlen//burst_len\<close> raises when \<open>burst_len\<close> is 0.\<close>

definition arm :: "buffer_ddr \<Rightarrow> int \<Rightarrow> bool \<Rightarrow> (unit, buffer_ddr) outcome" where
  "arm s nt force_overwrite =
     (if burst_len s = 0 then (Inl ZeroDivisionError, s)
      else if nt > maxlen s div burst_len s \<and> \<not> force_overwrite then (Inl CapacityError, s)
      else (Inr (), wstart (wstop (wlen s nt))))"

section \<open>Properties\<close>

subsection \<open>Helper facts\<close>

lemma length_dma_write [simp]: "length (dma_write delivered buff) = length buff"
  by (simp add: dma_write_def)

lemma config_buf_range_error:
  "len \<ge> buf_maxlen s \<Longrightarrow> config_buf s address len = (Inl RangeError, disable_buf s)"
  by (simp add: config_buf_def disable_buf_def)

lemma config_buf_ok:
  "len < buf_maxlen s \<Longrightarrow>
   config_buf s address len = (Inr (), s\<lparr>buf_start_reg := 0, buf_addr_reg := address, buf_len_reg := len\<rparr>)"
  by (simp add: config_buf_def disable_buf_def)

lemma py_slice_prefix:
  "0 \<le> n \<Longrightarrow> nat n \<le> length xs \<Longrightarrow> py_slice xs 0 n = take (nat n) xs"
  by (simp add: py_slice_def slice_bound_def Let_def)

lemma length_py_slice_prefix:
  "0 \<le> n \<Longrightarrow> nat n \<le> length xs \<Longrightarrow> length (py_slice xs 0 n) = nat n"
  by (simp add: py_slice_prefix)

lemma py_int_of_int [simp]: "py_int (of_int k) = k"
  by (simp add: py_int_def)

lemma py_int_of_int_add1 [simp]: "py_int (of_int k + 1) = k + 1"
  using py_int_of_int [of "k + 1"] by simp

lemma set_freq_nqz_eq: "set_freq_nqz fs_adc f = \<lfloor>f / (fs_adc / 2)\<rfloor> + 1"
  by (simp add: set_freq_nqz_def)

lemma nqz_bounds:
  assumes "0 < fs_adc"
  shows "of_int (set_freq_nqz fs_adc f - 1) * (fs_adc / 2) \<le> f"
    and "f < of_int (set_freq_nqz fs_adc f) * (fs_adc / 2)"
proof -
  have h: "0 < fs_adc / 2" using assms by simp
  show "of_int (set_freq_nqz fs_adc f - 1) * (fs_adc / 2) \<le> f"
    using floor_divide_lower [OF h, of f] by (simp add: set_freq_nqz_eq)
  show "f < of_int (set_freq_nqz fs_adc f) * (fs_adc / 2)"
    using floor_divide_upper [OF h, of f] by (simp add: set_freq_nqz_eq)
qed

lemma f_steps_eq:
  "set_freq_f_steps fdds r =
     (let x = r / (fdds / 2); f = \<lfloor>x\<rfloor>; d = x - of_int f
      in if d < 1 / 2 then f else if d > 1 / 2 then f + 1 else if even f then f else f + 1)"
  by (simp add: set_freq_f_steps_def np_round_def Let_def)

lemma f_steps_near:
  "\<bar>r / (fdds / 2) - of_int (set_freq_f_steps fdds r)\<bar> \<le> 1 / 2"
proof -
  define x where "x = r / (fdds / 2)"
  have b: "of_int \<lfloor>x\<rfloor> \<le> x" "x < of_int \<lfloor>x\<rfloor> + 1" by linarith+
  have "\<bar>x - of_int (if x - of_int \<lfloor>x\<rfloor> < 1 / 2 then \<lfloor>x\<rfloor>
          else if x - of_int \<lfloor>x\<rfloor> > 1 / 2 then \<lfloor>x\<rfloor> + 1
          else if even \<lfloor>x\<rfloor> then \<lfloor>x\<rfloor> else \<lfloor>x\<rfloor> + 1)\<bar> \<le> 1 / 2"
    using b by (simp split: if_splits)
  then show ?thesis
    by (simp only: f_steps_eq Let_def x_def)
qed

lemma f_steps_round:
  assumes "r / (fdds / 2) - of_int \<lfloor>r / (fdds / 2)\<rfloor> \<noteq> 1 / 2"
  shows "set_freq_f_steps fdds r = round (r / (fdds / 2))"
proof -
  define x where "x = r / (fdds / 2)"
  have b: "of_int \<lfloor>x\<rfloor> \<le> x" "x < of_int \<lfloor>x\<rfloor> + 1" by linarith+
  have ne: "x - of_int \<lfloor>x\<rfloor> \<noteq> 1 / 2" unfolding x_def by (rule assms)
  have "(if x - of_int \<lfloor>x\<rfloor> < 1 / 2 then \<lfloor>x\<rfloor>
          else if x - of_int \<lfloor>x\<rfloor> > 1 / 2 then \<lfloor>x\<rfloor> + 1
          else if even \<lfloor>x\<rfloor> then \<lfloor>x\<rfloor> else \<lfloor>x\<rfloor> + 1) = \<lfloor>x + 1 / 2\<rfloor>"
  proof (cases "x - of_int \<lfloor>x\<rfloor> < 1 / 2")
    case True
    then have "\<lfloor>x + 1 / 2\<rfloor> = \<lfloor>x\<rfloor>" using b by (intro floor_unique) linarith+
    then show ?thesis using True by simp
  next
    case False
    then have gt: "x - of_int \<lfloor>x\<rfloor> > 1 / 2" using ne by linarith
    have "\<lfloor>x + 1 / 2\<rfloor> = \<lfloor>x\<rfloor> + 1"
    proof (rule floor_unique)
      show "of_int (\<lfloor>x\<rfloor> + 1) \<le> x + 1 / 2"
        unfolding of_int_add of_int_1 using b gt by linarith
      show "x + 1 / 2 < of_int (\<lfloor>x\<rfloor> + 1) + 1"
        unfolding of_int_add of_int_1 using b gt by linarith
    qed
    then show ?thesis using False gt by simp
  qed
  then show ?thesis
    by (simp only: f_steps_eq Let_def x_def round_def)
qed

lemma f_steps_tie:
  "r / (fdds / 2) - of_int \<lfloor>r / (fdds / 2)\<rfloor> = 1 / 2 \<Longrightarrow> even (set_freq_f_steps fdds r)"
  by (simp add: f_steps_eq Let_def)

lemma f_dds_bound:
  assumes "0 < fdds"
  shows "\<bar>set_freq_f_dds fdds r\<bar> \<le> fdds / 4"
proof -
  have "\<bar>r / (fdds / 2) - of_int (set_freq_f_steps fdds r)\<bar> * (fdds / 2) \<le> 1 / 2 * (fdds / 2)"
    using f_steps_near [of r fdds] assms by (intro mult_right_mono) simp_all
  moreover have "\<bar>r / (fdds / 2) - of_int (set_freq_f_steps fdds r)\<bar> * (fdds / 2)
      = \<bar>r - of_int (set_freq_f_steps fdds r) * (fdds / 2)\<bar>"
  proof -
    have "\<bar>r / (fdds / 2) - of_int (set_freq_f_steps fdds r)\<bar> * (fdds / 2)
        = \<bar>(r / (fdds / 2) - of_int (set_freq_f_steps fdds r)) * (fdds / 2)\<bar>"
      using assms by (simp add: abs_mult)
    also have "(r / (fdds / 2) - of_int (set_freq_f_steps fdds r)) * (fdds / 2)
        = r - of_int (set_freq_f_steps fdds r) * (fdds / 2)"
      using assms by (simp add: field_simps)
    finally show ?thesis .
  qed
  ultimately have "\<bar>r - of_int (set_freq_f_steps fdds r) * (fdds / 2)\<bar> \<le> 1 / 2 * (fdds / 2)"
    by (simp only:)
  then show ?thesis
    unfolding set_freq_f_dds_def by simp
qed

lemma set_freq_v2_unfold:
  assumes "fs s \<noteq> 0" "f_dds s \<noteq> 0"
  shows "set_freq_v2 sc s f out_ch gen_ch =
        (let ro = set_freq_fold (fs s) (set_freq_ro_freq sc f gen_ch)
         in set_freq_int_v2 s (freq2int sc (ro - of_int (set_freq_f_steps (f_dds s) ro) * (f_dds s / 2)))
              ((4 + set_freq_f_steps (f_dds s) ro) mod 8) out_ch)"
  using assms
  by (simp add: set_freq_v2_def Let_def set_freq_f_dds_def set_freq_in_ch_def CH_OFFSET_V2_def)

lemma py_slice_nat:
  "py_slice xs (int i) (int j) = take (min j (length xs) - min i (length xs)) (drop (min i (length xs)) xs)"
  by (simp add: py_slice_def slice_bound_def Let_def)

lemma pad_trim_nat:
  fixes A B :: nat
  assumes "A \<le> B" "B \<le> length xs"
  shows "py_slice (py_slice xs (int (A - A mod 2)) (int (B + B mod 2))) (int (A mod 2)) (int (B - A + A mod 2))
         = take (B - A) (drop A xs)"
proof -
  define m where "m = A mod 2"
  define lo where "lo = A - m"
  define hi where "hi = min (B + B mod 2) (length xs)"
  have lo: "lo + m = A" by (simp add: lo_def m_def)
  have hi: "B \<le> hi" "hi \<le> length xs" using assms by (simp_all add: hi_def)
  have inner: "py_slice xs (int lo) (int (B + B mod 2)) = take (hi - lo) (drop lo xs)"
  proof -
    have "min lo (length xs) = lo" using lo hi assms by simp
    then show ?thesis unfolding py_slice_nat hi_def by (simp only:)
  qed
  have len: "length (take (hi - lo) (drop lo xs)) = hi - lo"
    using hi by simp
  have fit: "min (B - A + m) (hi - lo) = B - A + m" "min m (hi - lo) = m"
    using lo hi assms by simp_all
  have "py_slice (take (hi - lo) (drop lo xs)) (int m) (int (B - A + m))
      = take (B - A) (drop m (take (hi - lo) (drop lo xs)))"
    unfolding py_slice_nat len fit by simp
  also have "\<dots> = take (B - A) (take (hi - lo - m) (drop (m + lo) xs))"
    by (simp add: drop_take)
  also have "\<dots> = take (B - A) (drop A xs)"
  proof -
    have "min (B - A) (hi - lo - m) = B - A" "m + lo = A" using lo hi assms by simp_all
    then show ?thesis by simp
  qed
  finally have "py_slice (py_slice xs (int lo) (int (B + B mod 2))) (int m) (int (B - A + m))
      = take (B - A) (drop A xs)"
    by (simp only: inner)
  then show ?thesis
    unfolding lo_def m_def .
qed

lemma pad_trim_int:
  assumes "0 \<le> a" "a \<le> b" "b \<le> int (length xs)"
  shows "py_slice (py_slice xs (a - a mod 2) (b + b mod 2)) (a mod 2) (b - a + a mod 2)
         = take (nat (b - a)) (drop (nat a) xs)"
proof -
  obtain A where a: "a = int A"
    using assms(1) nonneg_int_cases by blast
  obtain B where b: "b = int B"
    using assms(1,2) nonneg_int_cases [of b] by force
  note ab = a b
  have AB: "A \<le> B" "B \<le> length xs" using assms ab by simp_all
  have e: "a - a mod 2 = int (A - A mod 2)" "b + b mod 2 = int (B + B mod 2)"
    "a mod 2 = int (A mod 2)" "b - a + a mod 2 = int (B - A + A mod 2)"
    using AB ab by (simp_all add: zmod_int)
  have "take (nat (b - a)) (drop (nat a) xs) = take (B - A) (drop A xs)"
    using ab AB by (simp add: nat_diff_distrib')
  moreover have "py_slice (py_slice xs (a - a mod 2) (b + b mod 2)) (a mod 2) (b - a + a mod 2)
      = py_slice (py_slice xs (int (A - A mod 2)) (int (B + B mod 2))) (int (A mod 2)) (int (B - A + A mod 2))"
    by (simp only: e(1) e(2) e(4)) (simp only: e(3))
  ultimately show ?thesis
    by (simp only: pad_trim_nat [OF AB])
qed

lemma py_int_quotient:
  assumes "0 \<le> c" "0 < d"
  shows "py_int (of_int c / of_int d) = c div d"
proof -
  have "(0::real) \<le> of_int c / of_int d" using assms by simp
  then show ?thesis by (simp add: py_int_def floor_divide_of_int_eq)
qed

lemma shift_add_eq_or:
  assumes "0 \<le> p" "p < 256"
  shows "push_bit 8 i + p = push_bit 8 i OR (p::int)"
proof -
  have "take_bit 8 p = p" using assms by (simp add: take_bit_int_eq_self)
  then have "p + push_bit 8 i = p OR push_bit 8 i"
    using concat_bit_eq [of 8 p i] by (simp only: concat_bit_def)
  then show ?thesis
    by (simp only: add.commute [of p] or.commute [of p])
qed

lemma set_freq_int_wide_out_of_range:
  "\<not> (0 \<le> out_ch \<and> out_ch < NOUT s) \<Longrightarrow>
   isl (fst (set_freq_int_wide s f_int c out_ch)) \<and> snd (set_freq_int_wide s f_int c out_ch) = s"
  by (auto simp add: set_freq_int_wide_def Let_def)

lemma arm_guard:
  assumes "0 < (b::int)"
  shows "nt > m div b \<longleftrightarrow> nt * b > m"
proof
  assume "nt > m div b"
  then have "m div b + 1 \<le> nt" by simp
  then have "(m div b + 1) * b \<le> nt * b"
    using assms by (intro mult_right_mono) simp_all
  moreover have "(m div b + 1) * b = m div b * b + b" by (simp add: algebra_simps)
  moreover have "m = m div b * b + m mod b" by simp
  moreover have "m mod b < b" using assms by simp
  ultimately show "nt * b > m" by linarith
next
  assume gt: "nt * b > m"
  show "nt > m div b"
  proof (rule ccontr)
    assume "\<not> nt > m div b"
    then have "nt \<le> m div b" by simp
    then have "nt * b \<le> m div b * b"
      using assms by (intro mult_right_mono) simp_all
    moreover have "m = m div b * b + m mod b" by simp
    moreover have "0 \<le> m mod b" using assms by simp
    ultimately show False using gt by linarith
  qed
qed

lemma junk_len_nonzero: "junk_len s \<noteq> 0"
proof (cases "0 \<le> DATA_WIDTH s")
  case True
  then have "0 \<le> 50 * DATA_WIDTH s div 32"
    by (simp add: pos_imp_zdiv_nonneg_iff)
  then show ?thesis by (simp add: junk_len_def)
next
  case False
  then have "50 * DATA_WIDTH s \<le> - 50" by simp
  then have "50 * DATA_WIDTH s div 32 \<le> (- 50) div 32"
    by (rule zdiv_mono1) simp
  then show ?thesis by (simp add: junk_len_def)
qed

lemma py_slice_range:
  assumes "0 \<le> a" "a \<le> b" "a \<le> int (length xs)"
  shows "py_slice xs a b = take (nat (min b (int (length xs)) - a)) (drop (nat a) xs)"
proof -
  obtain A where a: "a = int A"
    using assms(1) nonneg_int_cases by blast
  obtain B where b: "b = int B"
    using assms(1,2) nonneg_int_cases [of b] by force
  have AB: "A \<le> B" "A \<le> length xs" using assms a b by simp_all
  have "py_slice xs (int A) (int B) = take (min B (length xs) - A) (drop A xs)"
    unfolding py_slice_nat using AB by (simp add: min_absorb1)
  moreover have "nat (min (int B) (int (length xs)) - int A) = min B (length xs) - A"
    by (simp add: min_def nat_diff_distrib')
  ultimately show ?thesis
    by (simp only: a b nat_int)
qed

lemma get_mem_unfold:
  assumes "get_mem_window s nt start = (a, b)"
  shows "get_mem s nt start =
     map iq16 (py_slice (py_slice (ddr4_array s) (a - a mod 2) (b + b mod 2))
                 (a mod 2) (b - a + a mod 2))"
  using assms by (simp add: get_mem_def Let_def)

lemma get_mem_eq_slice:
  assumes "get_mem_window s nt start = (a, b)" and "0 \<le> a" and "a \<le> b" and "b \<le> maxlen s"
  shows "get_mem s nt start = map iq16 (take (nat (b - a)) (drop (nat a) (ddr4_array s)))"
proof -
  have "b \<le> int (length (ddr4_array s))" using assms(4) by (simp add: maxlen_def)
  then have "py_slice (py_slice (ddr4_array s) (a - a mod 2) (b + b mod 2)) (a mod 2) (b - a + a mod 2)
      = take (nat (b - a)) (drop (nat a) (ddr4_array s))"
    using assms(2,3) by (intro pad_trim_int)
  then show ?thesis
    by (simp only: get_mem_unfold [OF assms(1)])
qed

lemma length_get_mem:
  assumes "get_mem_window s nt start = (a, b)" and "0 \<le> a" and "a \<le> b" and "b \<le> maxlen s"
  shows "length (get_mem s nt start) = nat (b - a)"
proof -
  have "nat a + nat (b - a) \<le> length (ddr4_array s)"
    using assms(2,3,4) by (simp add: maxlen_def)
  then show ?thesis
    unfolding get_mem_eq_slice [OF assms] by simp
qed

subsection \<open>Configuring a capture window\<close>

text \<open>
  C1, as the claim states it: \<^verbatim>\<open>config_avg\<close> with a length at or above \<open>avg_maxlen\<close> would
  fail with a range error and leave the window registers unchanged. On a unit with
  \<open>avg_maxlen = 1024\<close> (\<open>N_AVG = 10\<close>) the call \<^verbatim>\<open>config_avg(address=0, length=1024)\<close>
  succeeds and writes 1024 into the length register.
\<close>

theorem config_avg_full_length_counterexample:
  "avg_maxlen (avg_buffer_init 10 10 0) = 1024 \<and>
   fst (config_avg (avg_buffer_init 10 10 0) 0 1024) \<noteq> Inl RangeError \<and>
   fst (config_avg (avg_buffer_init 10 10 0) 0 1024) = Inr () \<and>
   avg_len_reg (snd (config_avg (avg_buffer_init 10 10 0) 0 1024)) = 1024 \<and>
   avg_len_reg (avg_buffer_init 10 10 0) \<noteq> 1024"
  by (simp add: config_avg_def disable_avg_def avg_buffer_init_def)

text \<open>
  C1, amended. \<^verbatim>\<open>config_buf\<close> with a length at or above \<open>buf_maxlen\<close> fails with the range
  error and leaves the address and length registers of the raw window as they were (the
  capture is disabled first); with a length below \<open>buf_maxlen\<close> it succeeds and records
  the window. \<^verbatim>\<open>config_avg\<close> checks no length: for every length it disables the capture,
  records the window and succeeds. The length register of the averager counts the samples
  added into one result; \<open>avg_maxlen\<close>, the depth of the result memory, is checked where
  results are read: \<^verbatim>\<open>transfer_avg\<close> with a length at or above \<open>avg_maxlen\<close> fails with the
  range error and changes nothing.
\<close>

theorem configure_window:
  "(len \<ge> buf_maxlen s \<longrightarrow>
      config_buf s address len = (Inl RangeError, s\<lparr>buf_start_reg := 0\<rparr>) \<and>
      buf_addr_reg (snd (config_buf s address len)) = buf_addr_reg s \<and>
      buf_len_reg (snd (config_buf s address len)) = buf_len_reg s) \<and>
   (len < buf_maxlen s \<longrightarrow>
      config_buf s address len =
        (Inr (), s\<lparr>buf_start_reg := 0, buf_addr_reg := address, buf_len_reg := len\<rparr>)) \<and>
   config_avg s address len =
     (Inr (), s\<lparr>avg_start_reg := 0, avg_addr_reg := address, avg_len_reg := len\<rparr>) \<and>
   (len \<ge> avg_maxlen s \<longrightarrow> transfer_avg dma s address len = (Inl RangeError, s))"
  by (simp add: config_buf_def config_avg_def disable_buf_def disable_avg_def transfer_avg_def)

theorem configure_window_witness:
  "1024 \<ge> buf_maxlen (avg_buffer_init 10 10 0) \<and>
   fst (config_buf (avg_buffer_init 10 10 0) 0 1024) = Inl RangeError \<and>
   buf_len_reg (snd (config_buf (avg_buffer_init 10 10 0) 0 1024)) = 0 \<and>
   100 < buf_maxlen (avg_buffer_init 10 10 0) \<and>
   fst (config_buf (avg_buffer_init 10 10 0) 0 100) = Inr () \<and>
   buf_len_reg (snd (config_buf (avg_buffer_init 10 10 0) 0 100)) = 100 \<and>
   fst (config_avg (avg_buffer_init 10 10 0) 0 100) = Inr () \<and>
   avg_len_reg (snd (config_avg (avg_buffer_init 10 10 0) 0 100)) = 100 \<and>
   1024 \<ge> avg_maxlen (avg_buffer_init 10 10 0) \<and>
   fst (transfer_avg (\<lambda>n. ([], n)) (avg_buffer_init 10 10 0) 0 1024) = Inl RangeError"
  using configure_window [of "avg_buffer_init 10 10 0" 1024 0 "\<lambda>n. ([], n)"]
    configure_window [of "avg_buffer_init 10 10 0" 100 0 "\<lambda>n. ([], n)"]
  by (simp add: avg_buffer_init_def)

subsection \<open>Transfers\<close>

text \<open>
  C3. A transfer whose DMA engine reports a byte count different from the padded request
  (\<open>transferlen * 8\<close> for the averaging buffer, \<open>transferlen * 4\<close> for the raw buffer) ends
  in the transfer-integrity error and returns no samples; when the counts agree that error
  is not raised. The engine is asked only when the length passed the capacity check, so
  the error is raised exactly when the length is below the capacity and the counts differ.
\<close>

theorem transfer_integrity:
  "(fst (transfer_avg dma s address len) = Inl TransferIntegrityError
      \<longleftrightarrow> len < avg_maxlen s \<and> snd (dma ((len + len mod 2) * 8)) \<noteq> (len + len mod 2) * 8) \<and>
   (snd (dma ((len + len mod 2) * 8)) \<noteq> (len + len mod 2) * 8
      \<longrightarrow> isl (fst (transfer_avg dma s address len))) \<and>
   (fst (transfer_buf dma' s address len) = Inl TransferIntegrityError
      \<longleftrightarrow> len < buf_maxlen s \<and> snd (dma' ((len + len mod 2) * 4)) \<noteq> (len + len mod 2) * 4) \<and>
   (snd (dma' ((len + len mod 2) * 4)) \<noteq> (len + len mod 2) * 4
      \<longrightarrow> isl (fst (transfer_buf dma' s address len)))"
  by (auto simp add: transfer_avg_def transfer_buf_def Let_def split: prod.splits)

theorem transfer_integrity_witness:
  "5 < avg_maxlen (avg_buffer_init 3 3 0) \<and>
   snd ((\<lambda>n. ([] :: 64 word list, 40 :: int)) ((5 + 5 mod 2) * 8)) \<noteq> (5 + 5 mod 2) * 8 \<and>
   fst (transfer_avg (\<lambda>n. ([], 40)) (avg_buffer_init 3 3 0) 0 5) = Inl TransferIntegrityError \<and>
   isl (fst (transfer_avg (\<lambda>n. ([], 40)) (avg_buffer_init 3 3 0) 0 5)) \<and>
   5 < buf_maxlen (avg_buffer_init 3 3 0) \<and>
   snd ((\<lambda>n. ([] :: 32 word list, 20 :: int)) ((5 + 5 mod 2) * 4)) \<noteq> (5 + 5 mod 2) * 4 \<and>
   fst (transfer_buf (\<lambda>n. ([], 20)) (avg_buffer_init 3 3 0) 0 5) = Inl TransferIntegrityError \<and>
   isl (fst (transfer_buf (\<lambda>n. ([], 20)) (avg_buffer_init 3 3 0) 0 5))"
  using transfer_integrity [of "\<lambda>n. ([], 40)" "avg_buffer_init 3 3 0" 0 5 "\<lambda>n. ([], 20)"]
  by (simp add: avg_buffer_init_def)

text \<open>
  C4. Each transfer on its own: for a requested length \<open>0 \<le> len\<close> below the capacity of
  that buffer, on a unit whose buffer has the size \<^verbatim>\<open>__init__\<close> allocated and with an
  engine that reports the byte count it was asked for, the transfer asks the engine for
  the length rounded up to the next even count, \<open>len + len mod 2\<close> (times the sample
  size), programs the address and that padded length into the read-window registers,
  and returns the first \<open>len\<close> words of the buffer as pairs: exactly \<open>len\<close> rows.
\<close>

theorem transfer_pads_to_even:
  "(0 \<le> len \<and> len < avg_maxlen s \<and> length (avg_buff s) = nat (avg_maxlen s) \<and>
    snd (dma ((len + len mod 2) * 8)) = (len + len mod 2) * 8 \<longrightarrow>
      transfer_avg dma s address len =
        (Inr (map iq32 (take (nat len) (dma_write (fst (dma ((len + len mod 2) * 8))) (avg_buff s)))),
         s\<lparr>switch_avg_sel := switch_ch s, avg_dr_addr_reg := address,
           avg_dr_len_reg := len + len mod 2, avg_dr_start_reg := 0,
           avg_buff := dma_write (fst (dma ((len + len mod 2) * 8))) (avg_buff s)\<rparr>) \<and>
      length (map iq32 (take (nat len) (dma_write (fst (dma ((len + len mod 2) * 8))) (avg_buff s))))
        = nat len) \<and>
   (0 \<le> len \<and> len < buf_maxlen s \<and> length (buf_buff s) = nat (buf_maxlen s) \<and>
    snd (dma' ((len + len mod 2) * 4)) = (len + len mod 2) * 4 \<longrightarrow>
      transfer_buf dma' s address len =
        (Inr (map iq16 (take (nat len) (dma_write (fst (dma' ((len + len mod 2) * 4))) (buf_buff s)))),
         s\<lparr>switch_buf_sel := switch_ch s, buf_dr_addr_reg := address,
           buf_dr_len_reg := len + len mod 2, buf_dr_start_reg := 0,
           buf_buff := dma_write (fst (dma' ((len + len mod 2) * 4))) (buf_buff s)\<rparr>) \<and>
      length (map iq16 (take (nat len) (dma_write (fst (dma' ((len + len mod 2) * 4))) (buf_buff s))))
        = nat len) \<and>
   even (len + len mod 2) \<and> len \<le> len + len mod 2 \<and> len + len mod 2 \<le> len + 1"
proof -
  have pad: "even (len + len mod 2)" "len \<le> len + len mod 2" "len + len mod 2 \<le> len + 1"
    by presburger+
  have cut: "py_slice (dma_write d buff) 0 len = take (nat len) (dma_write d buff)"
    if "0 \<le> len" "len < cap" "length buff = nat cap" for d buff :: "'a list" and cap
  proof -
    have "nat len \<le> length (dma_write d buff)" using that by simp
    with that(1) show ?thesis by (rule py_slice_prefix)
  qed
  have rows: "length (take (nat len) (dma_write d buff)) = nat len"
    if "0 \<le> len" "len < cap" "length buff = nat cap" for d buff :: "'a list" and cap
    using that by simp
  have avg: "transfer_avg dma s address len =
        (Inr (map iq32 (take (nat len) (dma_write (fst (dma ((len + len mod 2) * 8))) (avg_buff s)))),
         s\<lparr>switch_avg_sel := switch_ch s, avg_dr_addr_reg := address,
           avg_dr_len_reg := len + len mod 2, avg_dr_start_reg := 0,
           avg_buff := dma_write (fst (dma ((len + len mod 2) * 8))) (avg_buff s)\<rparr>)"
    if h: "0 \<le> len" "len < avg_maxlen s" "length (avg_buff s) = nat (avg_maxlen s)"
      "snd (dma ((len + len mod 2) * 8)) = (len + len mod 2) * 8"
    using h(2,4) cut [OF h(1,2,3)]
    by (simp add: transfer_avg_def Let_def case_prod_beta)
  have buf: "transfer_buf dma' s address len =
        (Inr (map iq16 (take (nat len) (dma_write (fst (dma' ((len + len mod 2) * 4))) (buf_buff s)))),
         s\<lparr>switch_buf_sel := switch_ch s, buf_dr_addr_reg := address,
           buf_dr_len_reg := len + len mod 2, buf_dr_start_reg := 0,
           buf_buff := dma_write (fst (dma' ((len + len mod 2) * 4))) (buf_buff s)\<rparr>)"
    if h: "0 \<le> len" "len < buf_maxlen s" "length (buf_buff s) = nat (buf_maxlen s)"
      "snd (dma' ((len + len mod 2) * 4)) = (len + len mod 2) * 4"
    using h(2,4) cut [OF h(1,2,3)]
    by (simp add: transfer_buf_def Let_def case_prod_beta)
  show ?thesis
    using pad avg buf rows [of "avg_maxlen s" "avg_buff s"] rows [of "buf_maxlen s" "buf_buff s"]
    by (simp only: length_map) blast
qed

theorem transfer_pads_to_even_witness:
  "(0::int) \<le> 5000 \<and>
   5000 < avg_maxlen (avg_buffer_init 14 10 0) \<and>
   \<not> 5000 < buf_maxlen (avg_buffer_init 14 10 0) \<and>
   length (avg_buff (avg_buffer_init 14 10 0)) = nat (avg_maxlen (avg_buffer_init 14 10 0)) \<and>
   snd ((\<lambda>n::int. ([] :: 64 word list, n)) ((5000 + 5000 mod 2) * 8)) = (5000 + 5000 mod 2) * 8 \<and>
   (\<exists>data s'. transfer_avg (\<lambda>n. ([], n)) (avg_buffer_init 14 10 0) 0 5000 = (Inr data, s') \<and>
      length data = 5000 \<and> avg_dr_len_reg s' = 5000) \<and>
   (0::int) \<le> 101 \<and>
   101 < buf_maxlen (avg_buffer_init 14 10 0) \<and>
   length (buf_buff (avg_buffer_init 14 10 0)) = nat (buf_maxlen (avg_buffer_init 14 10 0)) \<and>
   snd ((\<lambda>n::int. ([] :: 32 word list, n)) ((101 + 101 mod 2) * 4)) = (101 + 101 mod 2) * 4 \<and>
   (\<exists>data s'. transfer_buf (\<lambda>n. ([], n)) (avg_buffer_init 14 10 0) 0 101 = (Inr data, s') \<and>
      length data = 101 \<and> buf_dr_len_reg s' = 102)"
proof -
  let ?s = "avg_buffer_init 14 10 0"
  let ?d = "\<lambda>n::int. ([] :: 64 word list, n)"
  let ?d' = "\<lambda>n::int. ([] :: 32 word list, n)"
  have ha: "(0::int) \<le> 5000 \<and> 5000 < avg_maxlen ?s \<and>
      length (avg_buff ?s) = nat (avg_maxlen ?s) \<and>
      snd (?d ((5000 + 5000 mod 2) * 8)) = (5000 + 5000 mod 2) * 8"
    by (simp add: avg_buffer_init_def)
  have hb: "(0::int) \<le> 101 \<and> 101 < buf_maxlen ?s \<and>
      length (buf_buff ?s) = nat (buf_maxlen ?s) \<and>
      snd (?d' ((101 + 101 mod 2) * 4)) = (101 + 101 mod 2) * 4"
    by (simp add: avg_buffer_init_def)
  have n: "\<not> 5000 < buf_maxlen ?s"
    by (simp add: avg_buffer_init_def)
  have "\<exists>data s'. transfer_avg ?d ?s 0 5000 = (Inr data, s') \<and>
      length data = 5000 \<and> avg_dr_len_reg s' = 5000"
    using transfer_pads_to_even [of 5000 ?s ?d 0 ?d'] ha by simp
  moreover have "\<exists>data s'. transfer_buf ?d' ?s 0 101 = (Inr data, s') \<and>
      length data = 101 \<and> buf_dr_len_reg s' = 102"
    using transfer_pads_to_even [of 101 ?s ?d 0 ?d'] hb by simp
  ultimately show ?thesis
    using ha hb n by blast
qed

subsection \<open>Frequency allocation\<close>

text \<open>
  C2. In \<^verbatim>\<open>AxisPFBReadoutV2.set_freq_int\<close>, a request for a PFB channel \<open>c\<close> that already
  holds a tuning word \<open>w\<close> different from the new word ends in the collision error and
  leaves the whole state as it was: the committed word, the output binding and every
  register. A request with the word already committed succeeds: the word stays, the
  output is bound to the channel (\<open>CHSEL out_ch\<close> holds \<open>c\<close>) and the bindings of the other
  outputs are kept.
\<close>

theorem set_freq_int_collision:
  "(ch_freqs s c = Some w \<and> w \<noteq> f_int \<longrightarrow>
      set_freq_int_v2 s f_int c out_ch = (Inl CollisionError, s)) \<and>
   (ch_freqs s c = Some f_int \<longrightarrow>
      fst (set_freq_int_v2 s f_int c out_ch) = Inr () \<and>
      ch_freqs (snd (set_freq_int_v2 s f_int c out_ch)) = ch_freqs s \<and>
      out_chs (snd (set_freq_int_v2 s f_int c out_ch)) = (out_chs s)(c \<mapsto> out_ch) \<and>
      regs (snd (set_freq_int_v2 s f_int c out_ch)) = (regs s)(CHSEL out_ch \<mapsto> c, FREQ c \<mapsto> f_int))"
  by (auto simp add: set_freq_int_v2_def Let_def)

theorem set_freq_int_collision_witness:
  "ch_freqs (snd (set_freq_int_v2 (pfb_readout_v2_init 800 100) 7 5 0)) 5 = Some 7 \<and>
   (7::int) \<noteq> 9 \<and>
   set_freq_int_v2 (snd (set_freq_int_v2 (pfb_readout_v2_init 800 100) 7 5 0)) 9 5 1
     = (Inl CollisionError, snd (set_freq_int_v2 (pfb_readout_v2_init 800 100) 7 5 0)) \<and>
   fst (set_freq_int_v2 (snd (set_freq_int_v2 (pfb_readout_v2_init 800 100) 7 5 0)) 7 5 1) = Inr () \<and>
   regs (snd (set_freq_int_v2 (snd (set_freq_int_v2 (pfb_readout_v2_init 800 100) 7 5 0)) 7 5 1)) (CHSEL 1) = Some 5 \<and>
   regs (snd (set_freq_int_v2 (snd (set_freq_int_v2 (pfb_readout_v2_init 800 100) 7 5 0)) 7 5 1)) (CHSEL 0) = Some 5"
  using set_freq_int_collision [of "snd (set_freq_int_v2 (pfb_readout_v2_init 800 100) 7 5 0)" 5 7 9 1]
    set_freq_int_collision [of "snd (set_freq_int_v2 (pfb_readout_v2_init 800 100) 7 5 0)" 5 7 7 1]
  by (simp add: set_freq_int_v2_def pfb_readout_v2_init_def Let_def)

text \<open>
  C5, as the claim states it: for \<open>fs = 100\<close> the frequency 120 would lie in zone 2 and
  be folded to \<open>-120\<close>. The code computes zone \<open>\<lfloor>120 / 50\<rfloor> + 1 = 3\<close>, which is odd, and
  keeps the sign.
\<close>

theorem set_freq_zone_120_counterexample:
  "\<not> (set_freq_nqz 100 120 = 2 \<and> set_freq_fold 100 120 = - 120)"
  by (simp add: set_freq_nqz_eq)

text \<open>
  C5, amended. \<^verbatim>\<open>set_freq\<close> computes the Nyquist zone of the frequency \<open>f\<close> expected at the
  readout (the requested frequency itself when \<^verbatim>\<open>gen_ch\<close> is \<^verbatim>\<open>None\<close>) as
  \<open>\<lfloor>f / (fs / 2)\<rfloor> + 1\<close>, the index of the half-open band of width \<open>fs / 2\<close> that holds \<open>f\<close>,
  and negates \<open>f\<close> exactly when the zone is even. For \<open>fs = 100\<close>: 120 is in zone 3 and
  keeps its sign, 220 is in zone 5 and keeps its sign, 60 is in zone 2 and folds to
  \<open>-60\<close>.
\<close>

theorem set_freq_nyquist_zone:
  "set_freq_nqz fs_adc f = \<lfloor>f / (fs_adc / 2)\<rfloor> + 1 \<and>
   set_freq_fold fs_adc f = (if even (set_freq_nqz fs_adc f) then - f else f) \<and>
   (0 < fs_adc \<longrightarrow>
      of_int (set_freq_nqz fs_adc f - 1) * (fs_adc / 2) \<le> f \<and>
      f < of_int (set_freq_nqz fs_adc f) * (fs_adc / 2)) \<and>
   set_freq_nqz 100 120 = 3 \<and> set_freq_fold 100 120 = 120 \<and>
   set_freq_nqz 100 220 = 5 \<and> set_freq_fold 100 220 = 220 \<and>
   set_freq_nqz 100 60 = 2 \<and> set_freq_fold 100 60 = - 60"
proof -
  have "set_freq_fold fs_adc f = (if even (set_freq_nqz fs_adc f) then - f else f)"
    by (simp add: set_freq_fold_def even_iff_mod_2_eq_zero)
  moreover have "set_freq_nqz 100 120 = 3" "set_freq_fold 100 120 = 120"
    "set_freq_nqz 100 220 = 5" "set_freq_fold 100 220 = 220"
    "set_freq_nqz 100 60 = 2" "set_freq_fold 100 60 = - 60"
    by (simp_all add: set_freq_fold_def set_freq_nqz_eq)
  ultimately show ?thesis
    using nqz_bounds [of fs_adc f] set_freq_nqz_eq [of fs_adc f] by blast
qed

theorem set_freq_nyquist_zone_witness:
  "(0::real) < 100 \<and> set_freq_nqz 100 60 = 2 \<and> set_freq_fold 100 60 = - 60 \<and>
   of_int (set_freq_nqz 100 60 - 1) * ((100::real) / 2) \<le> 60 \<and>
   (60::real) < of_int (set_freq_nqz 100 60) * (100 / 2)"
  using set_freq_nyquist_zone [of 100 60] by simp

text \<open>
  C6. From the folded frequency \<open>r\<close> the filter-bank \<^verbatim>\<open>set_freq\<close> computes \<open>f_steps\<close> as
  \<open>r / (f_dds / 2)\<close> rounded to the nearest integer (a tie goes to the even neighbour, as
  \<^verbatim>\<open>np.round\<close> does; off a tie it is HOL's \<open>round\<close>), the residual frequency
  \<open>r - f_steps * (f_dds / 2)\<close>, which is at most \<open>f_dds / 4\<close> in size, and the channel
  \<open>(CH_OFFSET + f_steps) mod N\<close>: \<open>(4 + f_steps) mod 8\<close> in V2, \<open>(N div 2 + f_steps) mod N\<close> in
  V3 and V4. With \<open>N = 8\<close> and \<open>CH_OFFSET = 4\<close>, \<open>f_steps = 1\<close> is channel 5. The last
  conjunct is \<^verbatim>\<open>AxisPFBReadoutV2.set_freq\<close> itself, handing these values to
  \<^verbatim>\<open>set_freq_int\<close>.
\<close>

theorem set_freq_channel_selection:
  "\<bar>r / (fdds / 2) - of_int (set_freq_f_steps fdds r)\<bar> \<le> 1 / 2 \<and>
   (r / (fdds / 2) - of_int \<lfloor>r / (fdds / 2)\<rfloor> \<noteq> 1 / 2 \<longrightarrow>
      set_freq_f_steps fdds r = round (r / (fdds / 2))) \<and>
   (r / (fdds / 2) - of_int \<lfloor>r / (fdds / 2)\<rfloor> = 1 / 2 \<longrightarrow> even (set_freq_f_steps fdds r)) \<and>
   set_freq_f_dds fdds r = r - of_int (set_freq_f_steps fdds r) * (fdds / 2) \<and>
   (0 < fdds \<longrightarrow> \<bar>set_freq_f_dds fdds r\<bar> \<le> fdds / 4) \<and>
   set_freq_in_ch CH_OFFSET_V2 8 k = (4 + k) mod 8 \<and>
   set_freq_in_ch (CH_OFFSET w) (N w) k = (N w div 2 + k) mod N w \<and>
   set_freq_in_ch CH_OFFSET_V2 8 1 = 5 \<and>
   (fs s \<noteq> 0 \<and> f_dds s \<noteq> 0 \<longrightarrow>
      set_freq_v2 sc s f out_ch gen_ch =
        (let ro = set_freq_fold (fs s) (set_freq_ro_freq sc f gen_ch)
         in set_freq_int_v2 s (freq2int sc (ro - of_int (set_freq_f_steps (f_dds s) ro) * (f_dds s / 2)))
              ((4 + set_freq_f_steps (f_dds s) ro) mod 8) out_ch))"
proof -
  have "set_freq_in_ch CH_OFFSET_V2 8 k = (4 + k) mod 8"
    "set_freq_in_ch (CH_OFFSET w) (N w) k = (N w div 2 + k) mod N w"
    "set_freq_in_ch CH_OFFSET_V2 8 1 = 5"
    by (simp_all add: set_freq_in_ch_def CH_OFFSET_V2_def CH_OFFSET_def)
  moreover have "set_freq_f_dds fdds r = r - of_int (set_freq_f_steps fdds r) * (fdds / 2)"
    by (simp add: set_freq_f_dds_def)
  ultimately show ?thesis
    using f_steps_near [of r fdds] f_steps_round [of r fdds] f_steps_tie [of r fdds]
      f_dds_bound [of fdds r] set_freq_v2_unfold [of s sc f out_ch gen_ch]
    by blast
qed

theorem set_freq_channel_selection_witness:
  "(125::real) / (100 / 2) - of_int \<lfloor>(125::real) / (100 / 2)\<rfloor> = 1 / 2 \<and>
   even (set_freq_f_steps 100 125) \<and>
   \<bar>(125::real) / (100 / 2) - of_int (set_freq_f_steps 100 125)\<bar> \<le> 1 / 2 \<and>
   (60::real) / (100 / 2) - of_int \<lfloor>(60::real) / (100 / 2)\<rfloor> \<noteq> 1 / 2 \<and>
   set_freq_f_steps 100 60 = round ((60::real) / (100 / 2)) \<and>
   (0::real) < 100 \<and> \<bar>set_freq_f_dds 100 60\<bar> \<le> 100 / 4 \<and>
   fs (pfb_readout_v2_init 800 100) \<noteq> 0 \<and> f_dds (pfb_readout_v2_init 800 100) \<noteq> 0 \<and>
   set_freq_v2 \<lparr>roundfreq = (\<lambda>f g. f), HAS_MIXER = (\<lambda>g. False),
                 get_mixer_freq = (\<lambda>g. 0), freq2int = (\<lambda>x. \<lfloor>x * 1000\<rfloor>)\<rparr>
               (pfb_readout_v2_init 800 100) 60 0 None
     = set_freq_int_v2 (pfb_readout_v2_init 800 100) 10000 5 0"
proof -
  let ?sc = "\<lparr>roundfreq = (\<lambda>f g. f), HAS_MIXER = (\<lambda>g. False),
                 get_mixer_freq = (\<lambda>g. 0), freq2int = (\<lambda>x::real. \<lfloor>x * 1000\<rfloor>)\<rparr>"
  let ?s = "pfb_readout_v2_init 800 100"
  have t: "(125::real) / (100 / 2) - of_int \<lfloor>(125::real) / (100 / 2)\<rfloor> = 1 / 2"
    by simp
  have n: "(60::real) / (100 / 2) - of_int \<lfloor>(60::real) / (100 / 2)\<rfloor> \<noteq> 1 / 2"
    by simp
  have z: "fs ?s \<noteq> 0 \<and> f_dds ?s \<noteq> 0"
    by (simp add: pfb_readout_v2_init_def)
  have st: "set_freq_f_steps 100 60 = 1"
    by (simp add: set_freq_f_steps_def np_round_def py_int_def)
  have fold: "set_freq_fold 800 60 = 60"
    by (simp add: set_freq_fold_def set_freq_nqz_eq)
  have "set_freq_v2 ?sc ?s 60 0 None = set_freq_int_v2 ?s 10000 5 0"
    using set_freq_channel_selection [of 60 100 0 undefined ?s ?sc 60 0 None] z st fold
    by (simp add: pfb_readout_v2_init_def set_freq_ro_freq_def Let_def)
  moreover have "even (set_freq_f_steps 100 125)"
    and "\<bar>(125::real) / (100 / 2) - of_int (set_freq_f_steps 100 125)\<bar> \<le> 1 / 2"
    using set_freq_channel_selection [of 125 100] t by blast+
  moreover have "set_freq_f_steps 100 60 = round ((60::real) / (100 / 2))"
    using set_freq_channel_selection [of 60 100] n by blast
  moreover have p: "(0::real) < 100" by simp
  moreover have "\<bar>set_freq_f_dds 100 60\<bar> \<le> 100 / 4"
    using set_freq_channel_selection [of 60 100] p by blast
  ultimately show ?thesis
    using t n z by blast
qed

text \<open>
  C7. In \<^verbatim>\<open>set_freq_int\<close> of V3 and V4, for a PFB channel \<open>c\<close> in \<open>[0, N)\<close> whose packet number
  fits the 8-bit packet field of the ID register (\<open>c < 2048\<close>; the blocks have 64
  channels), the value written to the ID register of an output in \<open>[0, NOUT)\<close> is
  \<open>(lane << 8) | packet\<close> with \<open>packet = c div L_PFB\<close> and \<open>lane = c mod L_PFB\<close> (the code adds
  the two fields, which set disjoint bits), next to the tuning word and a zero phase. For
  an output index outside \<open>[0, NOUT)\<close> the call ends in the range error and the state,
  every register included, is unchanged.
\<close>

theorem set_freq_int_wide_id:
  assumes "0 \<le> c" and "c < N s" and "c < 2048"
  shows "(0 \<le> out_ch \<and> out_ch < NOUT s \<longrightarrow>
            set_freq_int_wide s f_int c out_ch =
              (Inr (), s\<lparr>regs := (regs s)(ID out_ch \<mapsto> push_bit 8 (c mod L_PFB) OR (c div L_PFB),
                                           FREQ out_ch \<mapsto> f_int, PHASE out_ch \<mapsto> 0)\<rparr>)) \<and>
         (\<not> (0 \<le> out_ch \<and> out_ch < NOUT s) \<longrightarrow>
            set_freq_int_wide s f_int c out_ch = (Inl RangeError, s))"
proof -
  have p: "py_int (of_int c / of_int L_PFB) = c div L_PFB"
    using py_int_quotient [of c 8] assms by (simp add: L_PFB_def)
  have "0 \<le> c div L_PFB" "c div L_PFB < 256"
    using assms by (simp_all add: L_PFB_def)
  then have e: "push_bit 8 (c mod L_PFB) + c div L_PFB = push_bit 8 (c mod L_PFB) OR (c div L_PFB)"
    by (rule shift_add_eq_or)
  show ?thesis
    unfolding set_freq_int_wide_def Let_def p e using assms(1,2) by simp
qed

theorem set_freq_int_wide_id_witness:
  "(0::int) \<le> 43 \<and> 43 < N (pfb_readout_v4_init 64 800 25) \<and> (43::int) < 2048 \<and>
   (0::int) \<le> 7 \<and> 7 < NOUT (pfb_readout_v4_init 64 800 25) \<and>
   regs (snd (set_freq_int_wide (pfb_readout_v4_init 64 800 25) 1234 43 7)) (ID 7) = Some 773 \<and>
   \<not> ((0::int) \<le> 7 \<and> 7 < NOUT (pfb_readout_v3_init 64 800 25)) \<and>
   set_freq_int_wide (pfb_readout_v3_init 64 800 25) 1234 43 7
     = (Inl RangeError, pfb_readout_v3_init 64 800 25)"
  using set_freq_int_wide_id [of 43 "pfb_readout_v4_init 64 800 25" 7 1234]
    set_freq_int_wide_id [of 43 "pfb_readout_v3_init 64 800 25" 7 1234]
  by (simp add: pfb_readout_v4_init_def pfb_readout_v3_init_def L_PFB_def)

subsection \<open>The DDR4 ring buffer\<close>

text \<open>
  C8, as the claim states it: for every read window the returned array would have exactly
  \<open>end - start\<close> pairs. A window that runs past the end of the memory is clipped by the
  slice: on a memory of 64 words with bursts of 16 words, \<^verbatim>\<open>get_mem(1, start=60)\<close> has the
  window \<open>[60, 76)\<close> and returns 4 pairs, not 16.
\<close>

theorem get_mem_past_end_counterexample:
  "get_mem_window (buffer_ddr_init 32 15 (replicate 64 0)) 1 (Some 60) = (60, 76) \<and>
   length (get_mem (buffer_ddr_init 32 15 (replicate 64 0)) 1 (Some 60)) = 4 \<and>
   length (get_mem (buffer_ddr_init 32 15 (replicate 64 0)) 1 (Some 60)) \<noteq> nat (76 - 60)"
proof -
  let ?s = "buffer_ddr_init 32 15 (replicate 64 0)"
  have w: "get_mem_window ?s 1 (Some 60) = (60, 76)"
    by (simp add: get_mem_window_def burst_len_def buffer_ddr_init_def)
  have m: "ddr4_array ?s = replicate 64 0"
    by (simp add: buffer_ddr_init_def)
  have i: "py_slice (replicate 64 (0::32 word)) (60 - 60 mod 2) (76 + 76 mod 2) = replicate 4 0"
    by (simp add: py_slice_def slice_bound_def)
  have o: "py_slice (replicate 4 (0::32 word)) (60 mod 2) (76 - 60 + 60 mod 2) = replicate 4 0"
    by (simp add: py_slice_def slice_bound_def)
  have "get_mem ?s 1 (Some 60) = map iq16 (replicate 4 0)"
    by (simp only: get_mem_unfold [OF w] m i o)
  then have "length (get_mem ?s 1 (Some 60)) = 4"
    by simp
  then show ?thesis
    using w by simp
qed

text \<open>
  C8, amended. For every window \<open>[a, b)\<close>, \<^verbatim>\<open>get_mem\<close> returns the trimmed view
  \<open>[a mod 2, b - a + a mod 2)\<close> of a copy of the slice of the memory from \<open>a - a mod 2\<close> to
  \<open>b + b mod 2\<close>, the window widened outward to even bounds. When the window lies in the
  memory (\<open>0 \<le> a \<le> b \<le> maxlen\<close>) the copy holds the words from \<open>a - a mod 2\<close> up to
  \<open>b + b mod 2\<close> (up to the end of the memory, if that comes first), and the trimmed view
  is exactly the words \<open>a, \<dots>, b - 1\<close>: the returned array has \<open>b - a\<close> pairs, whatever the
  padding was.
\<close>

theorem get_mem_pad_and_trim:
  assumes "get_mem_window s nt start = (a, b)"
  shows "get_mem s nt start =
           map iq16 (py_slice (py_slice (ddr4_array s) (a - a mod 2) (b + b mod 2))
                       (a mod 2) (b - a + a mod 2)) \<and>
         even (a - a mod 2) \<and> even (b + b mod 2) \<and>
         a - 1 \<le> a - a mod 2 \<and> a - a mod 2 \<le> a \<and> b \<le> b + b mod 2 \<and> b + b mod 2 \<le> b + 1 \<and>
         (0 \<le> a \<and> a \<le> b \<and> b \<le> maxlen s \<longrightarrow>
            py_slice (ddr4_array s) (a - a mod 2) (b + b mod 2) =
              take (nat (min (b + b mod 2) (maxlen s) - (a - a mod 2)))
                (drop (nat (a - a mod 2)) (ddr4_array s)) \<and>
            get_mem s nt start = map iq16 (take (nat (b - a)) (drop (nat a) (ddr4_array s))) \<and>
            length (get_mem s nt start) = nat (b - a))"
proof -
  have e: "even (a - a mod 2)" "even (b + b mod 2)"
    "a - 1 \<le> a - a mod 2" "a - a mod 2 \<le> a" "b \<le> b + b mod 2" "b + b mod 2 \<le> b + 1"
    by presburger+
  have in_mem: "py_slice (ddr4_array s) (a - a mod 2) (b + b mod 2) =
        take (nat (min (b + b mod 2) (maxlen s) - (a - a mod 2)))
          (drop (nat (a - a mod 2)) (ddr4_array s)) \<and>
      get_mem s nt start = map iq16 (take (nat (b - a)) (drop (nat a) (ddr4_array s))) \<and>
      length (get_mem s nt start) = nat (b - a)"
    if h: "0 \<le> a" "a \<le> b" "b \<le> maxlen s"
  proof -
    have m: "a mod 2 \<le> a" "0 \<le> a mod 2" "0 \<le> b mod 2"
      using h(1) by (simp_all add: zmod_le_nonneg_dividend)
    have r: "0 \<le> a - a mod 2" "a - a mod 2 \<le> b + b mod 2"
      "a - a mod 2 \<le> int (length (ddr4_array s))"
      using h m unfolding maxlen_def by linarith+
    have "py_slice (ddr4_array s) (a - a mod 2) (b + b mod 2) =
        take (nat (min (b + b mod 2) (maxlen s) - (a - a mod 2)))
          (drop (nat (a - a mod 2)) (ddr4_array s))"
      unfolding py_slice_range [OF r] maxlen_def by (rule refl)
    then show ?thesis
      using get_mem_eq_slice [OF assms h] length_get_mem [OF assms h] by simp
  qed
  show ?thesis
    using get_mem_unfold [OF assms] e in_mem by blast
qed

theorem get_mem_pad_and_trim_witness:
  "get_mem_window (buffer_ddr_init 32 42 (replicate 64 0)) 1 (Some 7) = (7, 50) \<and>
   (0::int) \<le> 7 \<and> (7::int) \<le> 50 \<and> 50 \<le> maxlen (buffer_ddr_init 32 42 (replicate 64 0)) \<and>
   py_slice (ddr4_array (buffer_ddr_init 32 42 (replicate 64 0))) (7 - 7 mod 2) (50 + 50 mod 2)
     = take 44 (drop 6 (ddr4_array (buffer_ddr_init 32 42 (replicate 64 0)))) \<and>
   length (get_mem (buffer_ddr_init 32 42 (replicate 64 0)) 1 (Some 7)) = 43"
proof -
  let ?s = "buffer_ddr_init 32 42 (replicate 64 0)"
  have w: "get_mem_window ?s 1 (Some 7) = (7, 50)"
    by (simp add: get_mem_window_def burst_len_def buffer_ddr_init_def)
  have h: "(0::int) \<le> 7 \<and> (7::int) \<le> 50 \<and> 50 \<le> maxlen ?s"
    by (simp add: maxlen_def buffer_ddr_init_def)
  have c: "py_slice (ddr4_array ?s) (7 - 7 mod 2) (50 + 50 mod 2) =
        take (nat (min (50 + 50 mod 2) (maxlen ?s) - (7 - 7 mod 2)))
          (drop (nat (7 - 7 mod 2)) (ddr4_array ?s))"
    and l: "length (get_mem ?s 1 (Some 7)) = nat (50 - 7)"
    using get_mem_pad_and_trim [OF w] h by blast+
  have "nat (min (50 + 50 mod 2) (maxlen ?s) - (7 - 7 mod 2)) = 44" "nat (7 - 7 mod 2) = 6"
    by (simp_all add: maxlen_def buffer_ddr_init_def)
  then have "py_slice (ddr4_array ?s) (7 - 7 mod 2) (50 + 50 mod 2) =
      take 44 (drop 6 (ddr4_array ?s))"
    using c by (simp only:)
  moreover have "length (get_mem ?s 1 (Some 7)) = 43"
    using l by simp
  ultimately show ?thesis
    using w h by blast
qed

text \<open>
  C9. With a positive burst length, \<^verbatim>\<open>arm\<close> ends in the capacity error exactly when
  \<open>nt * burst_len\<close> exceeds \<open>maxlen\<close> and \<^verbatim>\<open>force_overwrite\<close> is false. Otherwise it writes
  \<open>nt\<close> to the burst-count register, then 0 and then 1 to the write-start register, in
  that order.
\<close>

theorem arm_capacity:
  assumes "0 < burst_len s"
  shows "(fst (arm s nt force_overwrite) = Inl CapacityError
            \<longleftrightarrow> nt * burst_len s > maxlen s \<and> \<not> force_overwrite) \<and>
         (\<not> (nt * burst_len s > maxlen s \<and> \<not> force_overwrite) \<longrightarrow>
            arm s nt force_overwrite =
              (Inr (), s\<lparr>wnburst_reg := nt, wstart_reg := 1,
                          writes := writes s @ [(WNBURST_REG, nt), (WSTART_REG, 0), (WSTART_REG, 1)]\<rparr>))"
  using assms arm_guard [OF assms, of "maxlen s" nt]
  by (auto simp add: arm_def wlen_def wstop_def wstart_def)

theorem arm_capacity_witness:
  "0 < burst_len (buffer_ddr_init 32 15 (replicate 64 0)) \<and>
   maxlen (buffer_ddr_init 32 15 (replicate 64 0)) < 5 * burst_len (buffer_ddr_init 32 15 (replicate 64 0)) \<and>
   fst (arm (buffer_ddr_init 32 15 (replicate 64 0)) 5 False) = Inl CapacityError \<and>
   fst (arm (buffer_ddr_init 32 15 (replicate 64 0)) 5 True) = Inr () \<and>
   \<not> maxlen (buffer_ddr_init 32 15 (replicate 64 0)) < 4 * burst_len (buffer_ddr_init 32 15 (replicate 64 0)) \<and>
   writes (snd (arm (buffer_ddr_init 32 15 (replicate 64 0)) 4 False))
     = writes (buffer_ddr_init 32 15 (replicate 64 0))
         @ [(WNBURST_REG, 4), (WSTART_REG, 0), (WSTART_REG, 1)]"
  using arm_capacity [of "buffer_ddr_init 32 15 (replicate 64 0)" 5 False]
    arm_capacity [of "buffer_ddr_init 32 15 (replicate 64 0)" 5 True]
    arm_capacity [of "buffer_ddr_init 32 15 (replicate 64 0)" 4 False]
  by (simp add: buffer_ddr_init_def burst_len_def maxlen_def)

text \<open>
  C10, as the claim states it: for every \<open>nt > 0\<close> the arrays returned by \<^verbatim>\<open>get_mem(nt)\<close>
  and \<^verbatim>\<open>get_mem(nt, start=junk_len)\<close> would have \<open>nt * burst_len - junk_len\<close> and
  \<open>nt * burst_len\<close> pairs, and so differ in length. On a memory of 64 words with bursts
  of 16 words and \<open>junk_len = 51\<close>, both \<^verbatim>\<open>get_mem(4)\<close> and \<^verbatim>\<open>get_mem(4, start=51)\<close> return
  13 pairs: the second window, \<open>[51, 115)\<close>, is clipped at the end of the memory.
\<close>

theorem get_mem_default_start_counterexample:
  "(0::int) < 4 \<and>
   junk_len (buffer_ddr_init 32 15 (replicate 64 0)) = 51 \<and>
   4 * burst_len (buffer_ddr_init 32 15 (replicate 64 0)) = 64 \<and>
   length (get_mem (buffer_ddr_init 32 15 (replicate 64 0)) 4 None) = 13 \<and>
   length (get_mem (buffer_ddr_init 32 15 (replicate 64 0)) 4 (Some 51)) = 13 \<and>
   length (get_mem (buffer_ddr_init 32 15 (replicate 64 0)) 4 (Some 51)) \<noteq> nat 64"
proof -
  let ?s = "buffer_ddr_init 32 15 (replicate 64 0)"
  have j: "junk_len ?s = 51" and b: "4 * burst_len ?s = 64"
    by (simp_all add: junk_len_def burst_len_def buffer_ddr_init_def)
  have w1: "get_mem_window ?s 4 None = (51, 64)"
    and w2: "get_mem_window ?s 4 (Some 51) = (51, 115)"
    by (simp_all add: get_mem_window_def junk_len_def burst_len_def buffer_ddr_init_def)
  have m: "ddr4_array ?s = replicate 64 0"
    by (simp add: buffer_ddr_init_def)
  have i1: "py_slice (replicate 64 (0::32 word)) (51 - 51 mod 2) (64 + 64 mod 2) = replicate 14 0"
    and i2: "py_slice (replicate 64 (0::32 word)) (51 - 51 mod 2) (115 + 115 mod 2) = replicate 14 0"
    by (simp_all add: py_slice_def slice_bound_def)
  have o1: "py_slice (replicate 14 (0::32 word)) (51 mod 2) (64 - 51 + 51 mod 2) = replicate 13 0"
    and o2: "py_slice (replicate 14 (0::32 word)) (51 mod 2) (115 - 51 + 51 mod 2) = replicate 13 0"
    by (simp_all add: py_slice_def slice_bound_def)
  have "get_mem ?s 4 None = map iq16 (replicate 13 0)"
    by (simp only: get_mem_unfold [OF w1] m i1 o1)
  moreover have "get_mem ?s 4 (Some 51) = map iq16 (replicate 13 0)"
    by (simp only: get_mem_unfold [OF w2] m i2 o2)
  ultimately show ?thesis
    using j b by simp
qed

text \<open>
  C10, amended. The window of \<^verbatim>\<open>get_mem(nt)\<close> is \<open>[junk_len, nt * burst_len)\<close>, the window of
  \<^verbatim>\<open>get_mem(nt, start)\<close> is \<open>[start, start + nt * burst_len)\<close>. Since \<open>junk_len\<close> is never 0,
  the two calls \<^verbatim>\<open>get_mem(nt)\<close> and \<^verbatim>\<open>get_mem(nt, start=junk_len)\<close> differ in the end point
  and in the length of the window, for every \<open>nt\<close>. Where the windows lie in the memory
  (\<open>0 \<le> junk_len \<le> nt * burst_len\<close> and the end of the window at most \<open>maxlen\<close>) the returned
  arrays have \<open>nt * burst_len - junk_len\<close> and \<open>nt * burst_len\<close> pairs, and so differ in
  length.
\<close>

theorem get_mem_default_start_differs:
  "get_mem_window s nt None = (junk_len s, nt * burst_len s) \<and>
   get_mem_window s nt (Some st) = (st, st + nt * burst_len s) \<and>
   snd (get_mem_window s nt None) \<noteq> snd (get_mem_window s nt (Some (junk_len s))) \<and>
   snd (get_mem_window s nt None) - fst (get_mem_window s nt None)
     \<noteq> snd (get_mem_window s nt (Some (junk_len s))) - fst (get_mem_window s nt (Some (junk_len s))) \<and>
   (0 \<le> junk_len s \<and> junk_len s \<le> nt * burst_len s \<and> nt * burst_len s \<le> maxlen s \<longrightarrow>
      length (get_mem s nt None) = nat (nt * burst_len s - junk_len s)) \<and>
   (0 \<le> st \<and> 0 \<le> nt * burst_len s \<and> st + nt * burst_len s \<le> maxlen s \<longrightarrow>
      length (get_mem s nt (Some st)) = nat (nt * burst_len s)) \<and>
   (0 \<le> junk_len s \<and> junk_len s \<le> nt * burst_len s \<and> junk_len s + nt * burst_len s \<le> maxlen s \<longrightarrow>
      length (get_mem s nt None) \<noteq> length (get_mem s nt (Some (junk_len s))))"
proof -
  have w1: "get_mem_window s nt None = (junk_len s, nt * burst_len s)"
    and w2: "get_mem_window s nt (Some st) = (st, st + nt * burst_len s)" for st
    by (simp_all add: get_mem_window_def)
  have nz: "junk_len s \<noteq> 0" by (rule junk_len_nonzero)
  have l1: "length (get_mem s nt None) = nat (nt * burst_len s - junk_len s)"
    if "0 \<le> junk_len s" "junk_len s \<le> nt * burst_len s" "nt * burst_len s \<le> maxlen s"
    using length_get_mem [OF w1 that] .
  have l2: "length (get_mem s nt (Some st)) = nat (nt * burst_len s)"
    if "0 \<le> st" "0 \<le> nt * burst_len s" "st + nt * burst_len s \<le> maxlen s" for st
    using length_get_mem [OF w2, of st] that by simp
  have l3: "length (get_mem s nt None) \<noteq> length (get_mem s nt (Some (junk_len s)))"
    if h: "0 \<le> junk_len s" "junk_len s \<le> nt * burst_len s" "junk_len s + nt * burst_len s \<le> maxlen s"
  proof -
    have "length (get_mem s nt None) = nat (nt * burst_len s - junk_len s)"
      using l1 h by simp
    moreover have "length (get_mem s nt (Some (junk_len s))) = nat (nt * burst_len s)"
      using l2 [of "junk_len s"] h by simp
    ultimately show ?thesis using nz h by simp
  qed
  show ?thesis
    using w1 w2 nz l1 l2 l3 by simp
qed

theorem get_mem_default_start_differs_witness:
  "0 \<le> junk_len (buffer_ddr_init 32 15 (replicate 256 0)) \<and>
   junk_len (buffer_ddr_init 32 15 (replicate 256 0)) \<le> 4 * burst_len (buffer_ddr_init 32 15 (replicate 256 0)) \<and>
   junk_len (buffer_ddr_init 32 15 (replicate 256 0)) + 4 * burst_len (buffer_ddr_init 32 15 (replicate 256 0))
     \<le> maxlen (buffer_ddr_init 32 15 (replicate 256 0)) \<and>
   get_mem_window (buffer_ddr_init 32 15 (replicate 256 0)) 4 None = (51, 64) \<and>
   get_mem_window (buffer_ddr_init 32 15 (replicate 256 0)) 4 (Some 51) = (51, 115) \<and>
   length (get_mem (buffer_ddr_init 32 15 (replicate 256 0)) 4 None) = 13 \<and>
   length (get_mem (buffer_ddr_init 32 15 (replicate 256 0)) 4 (Some 51)) = 64"
  using get_mem_default_start_differs [of "buffer_ddr_init 32 15 (replicate 256 0)" 4 51]
  by (simp add: buffer_ddr_init_def junk_len_def burst_len_def maxlen_def)

end
